theory Spec2Isabelle
  imports Complex_Main "HOL-Library.Sublist"
begin

section \<open>lecture\_2/summary.py: the life stage of an age\<close>

text \<open>
  \<^verbatim>\<open>generate_profile(age)\<close> is an \<^verbatim>\<open>if/elif/elif\<close> chain with no
  \<^verbatim>\<open>else\<close>: when no branch is taken the Python function falls off its end and
  returns \<^verbatim>\<open>None\<close>. The age is the integer \<^verbatim>\<open>2025 - int(birth_year_str)\<close>
  of \<^verbatim>\<open>main\<close>, an unbounded Python int.
\<close>

definition generate_profile :: "int \<Rightarrow> string option" where
  "generate_profile age =
     (if 0 \<le> age \<and> age \<le> 12 then Some ''Child''
      else if 13 \<le> age \<and> age \<le> 19 then Some ''Teenager''
      else if age \<ge> 20 then Some ''Adult''
      else None)"

section \<open>lecture\_5/book\_api/main.py: the book collection service\<close>

subsection \<open>Data model\<close>

text \<open>
  \<^verbatim>\<open>BookCreate\<close> is the validated request body of POST and PUT; \<^verbatim>\<open>BookDB\<close>
  is a row of the table \<^verbatim>\<open>books\<close>, built as \<^verbatim>\<open>BookDB(**book.dict())\<close>: the three
  fields of the body and the primary key \<^verbatim>\<open>id\<close> (here \<open>book_id\<close>, as \<open>id\<close> is
  the identity function of HOL). \<^verbatim>\<open>BookResponse\<close> has the fields of the row
  (\<^verbatim>\<open>orm_mode\<close>), so a handler's answer is the row itself. Python's \<^verbatim>\<open>int\<close> is
  unbounded, hence \<open>int\<close>; \<^verbatim>\<open>Optional[int]\<close> is \<open>int option\<close>.
\<close>

record book_create =
  title :: string
  author :: string
  year :: "int option"

record book_db = book_create +
  book_id :: int

text \<open>
  The failures a request is answered with: FastAPI rejects a request whose body or
  parameters violate the declared \<^verbatim>\<open>Field\<close>/\<^verbatim>\<open>Query\<close> constraints before the
  handler runs (status 422), and the handlers raise \<^verbatim>\<open>HTTPException(status_code=404)\<close>.
  An exception that the database driver raises inside a handler is caught nowhere and is
  answered with status 500: \<^verbatim>\<open>OverflowError\<close> when an integer is bound that SQLite
  cannot hold, \<^verbatim>\<open>OperationalError\<close> when SQLite refuses a \<^verbatim>\<open>LIKE\<close> pattern.
\<close>

datatype http_error = ValidationError | NotFound | OverflowError | OperationalError

fun status_code :: "http_error \<Rightarrow> nat" where
  "status_code ValidationError = 422"
| "status_code NotFound = 404"
| "status_code OverflowError = 500"
| "status_code OperationalError = 500"

text \<open>
  The constraints of \<^verbatim>\<open>BookCreate\<close>: \<^verbatim>\<open>min_length=1\<close> on title and author,
  \<^verbatim>\<open>ge=0, le=2100\<close> on a year that is given.
\<close>

definition BookCreate_valid :: "book_create \<Rightarrow> bool" where
  "BookCreate_valid book \<longleftrightarrow>
     1 \<le> length (title book) \<and> 1 \<le> length (author book) \<and>
     (case year book of None \<Rightarrow> True | Some y \<Rightarrow> 0 \<le> y \<and> y \<le> 2100)"

subsection \<open>The table\<close>

text \<open>
  The table \<^verbatim>\<open>books\<close> is the list of its rows in the order a query without
  \<^verbatim>\<open>ORDER BY\<close> scans them, which for SQLite is the order of the row ids.
  \<^verbatim>\<open>Column(Integer, primary_key=True)\<close> makes \<^verbatim>\<open>id\<close> the row id of the SQLite
  table, declared without \<^verbatim>\<open>AUTOINCREMENT\<close>: an insert that gives no id takes one more
  than the largest id in the table, and 1 in an empty table. The new row is therefore last
  in scan order (\<open>rowid_order_run\<close> below shows that the list stays sorted by id).
\<close>

definition next_rowid :: "book_db list \<Rightarrow> int" where
  "next_rowid db = (if db = [] then 1 else Max (set (map book_id db)) + 1)"

text \<open>
  SQLite holds signed 64-bit integers. A parameter declared \<^verbatim>\<open>int\<close> reaches the
  handler as a Python int of any size, and the driver raises \<^verbatim>\<open>OverflowError\<close> when
  an integer outside that range is bound to a statement.
\<close>

definition sqlite_integer :: "int \<Rightarrow> bool" where
  "sqlite_integer i \<longleftrightarrow> - (2 ^ 63) \<le> i \<and> i < 2 ^ 63"

text \<open>\<^verbatim>\<open>db.query(BookDB).filter(BookDB.id == book_id).first()\<close>\<close>

definition query_first :: "int \<Rightarrow> book_db list \<Rightarrow> book_db option" where
  "query_first i db = find (\<lambda>b. book_id b = i) db"

subsection \<open>The operator \<^verbatim>\<open>ilike\<close>\<close>

text \<open>
  SQLite has no \<^verbatim>\<open>ILIKE\<close>; SQLAlchemy renders \<^verbatim>\<open>col.ilike(p)\<close> as
  \<^verbatim>\<open>lower(col) LIKE lower(p)\<close>. In a \<^verbatim>\<open>LIKE\<close> pattern \<^verbatim>\<open>%\<close> stands for any
  sequence of characters and \<^verbatim>\<open>_\<close> for any one character; every other character
  stands for itself, upper and lower case of the letters A to Z not distinguished. A
  \<open>char\<close> is one character of the text, a code point below 256; \<open>lower\<close> folds the
  ASCII letters only, as SQLite's built-in \<^verbatim>\<open>lower\<close> and \<^verbatim>\<open>LIKE\<close> do.
\<close>

definition lower :: "char \<Rightarrow> char" where
  "lower c =
     (case map_of (zip ''ABCDEFGHIJKLMNOPQRSTUVWXYZ'' ''abcdefghijklmnopqrstuvwxyz'') c of
        None \<Rightarrow> c
      | Some l \<Rightarrow> l)"

fun like :: "string \<Rightarrow> string \<Rightarrow> bool" where
  "like [] [] = True"
| "like [] (c # cs) = False"
| "like (p # ps) cs =
     (if p = CHR ''%'' then
        like ps cs \<or> (case cs of [] \<Rightarrow> False | c # cs' \<Rightarrow> like (p # ps) cs')
      else
        (case cs of [] \<Rightarrow> False
         | c # cs' \<Rightarrow> (p = CHR ''_'' \<or> lower p = lower c) \<and> like ps cs'))"

text \<open>
  \<open>like\<close> is the comparison of a pattern with a text. SQLite's \<^verbatim>\<open>LIKE\<close> runs it on
  its two operands as C strings, each ending at its first NUL character, and before that
  refuses a pattern of more than 50000 bytes (\<^verbatim>\<open>LIKE or GLOB pattern too complex\<close>).
  The bytes are those of UTF-8: one for a character below 128 and two for the others.
\<close>

definition c_string :: "string \<Rightarrow> string" where
  "c_string s = takeWhile (\<lambda>c. c \<noteq> CHR 0x00) s"

definition utf8_length :: "string \<Rightarrow> nat" where
  "utf8_length s = length s + length (filter digit7 s)"

definition sqlite_like :: "string \<Rightarrow> string \<Rightarrow> http_error + bool" where
  "sqlite_like pat text =
     (if utf8_length pat > 50000 then Inl OperationalError
      else Inr (like (c_string pat) (c_string text)))"

definition ilike :: "string \<Rightarrow> string \<Rightarrow> http_error + bool" where
  "ilike col pat = sqlite_like (map lower pat) (map lower col)"

subsection \<open>The handlers\<close>

text \<open>
  A handler that commits returns its answer and the table after the request; a failed
  request leaves the table as it was. The reading handlers return their answer only.
  In \<open>read_book\<close>, \<open>update_book\<close> and \<open>delete_book\<close> the id is an integer that
  SQLite can hold, as the id of every stored row is; the same requests on any integer
  follow further down.
\<close>

definition create_book ::
  "book_create \<Rightarrow> book_db list \<Rightarrow> (http_error + book_db) \<times> book_db list" where
  "create_book book db =
     (if \<not> BookCreate_valid book then (Inl ValidationError, db)
      else
        let db_book = \<lparr>title = title book, author = author book, year = year book,
                        book_id = next_rowid db\<rparr>
        in (Inr db_book, db @ [db_book]))"

definition read_books :: "int \<Rightarrow> int \<Rightarrow> book_db list \<Rightarrow> http_error + book_db list" where
  "read_books skip limit db =
     (if \<not> (skip \<ge> 0 \<and> limit \<ge> 1 \<and> limit \<le> 100) then Inl ValidationError
      else if \<not> sqlite_integer skip then Inl OverflowError
      else Inr (take (nat limit) (drop (nat skip) db)))"

definition read_book :: "int \<Rightarrow> book_db list \<Rightarrow> http_error + book_db" where
  "read_book i db =
     (case query_first i db of
        None \<Rightarrow> Inl NotFound
      | Some book \<Rightarrow> Inr book)"

text \<open>
  \<^verbatim>\<open>update_book\<close>: the body is validated before the handler runs; the handler then
  looks the row up, sets the three fields of the body on it and commits, which writes the
  row back under its key (\<^verbatim>\<open>UPDATE books SET ... WHERE books.id = ?\<close>).
\<close>

definition update_book ::
  "int \<Rightarrow> book_create \<Rightarrow> book_db list \<Rightarrow> (http_error + book_db) \<times> book_db list" where
  "update_book i book_update db =
     (if \<not> BookCreate_valid book_update then (Inl ValidationError, db)
      else
        (case query_first i db of
           None \<Rightarrow> (Inl NotFound, db)
         | Some db_book \<Rightarrow>
             let db_book' = db_book\<lparr>title := title book_update, author := author book_update,
                                     year := year book_update\<rparr>
             in (Inr db_book', map (\<lambda>b. if book_id b = i then db_book' else b) db)))"

definition delete_book ::
  "int \<Rightarrow> book_db list \<Rightarrow> (http_error + unit) \<times> book_db list" where
  "delete_book i db =
     (case query_first i db of
        None \<Rightarrow> (Inl NotFound, db)
      | Some book \<Rightarrow> (Inr (), filter (\<lambda>b. book_id b \<noteq> i) db))"

text \<open>
  A query is the list of the conditions that \<^verbatim>\<open>filter\<close> has added to it, and
  \<^verbatim>\<open>query.all()\<close> runs it as one \<^verbatim>\<open>SELECT ... WHERE c1 AND c2 AND ...\<close>, with no
  \<^verbatim>\<open>OFFSET\<close> and no \<^verbatim>\<open>LIMIT\<close>: the rows are scanned in order, on each row the
  conditions are tested in the order they were added until one is false, and an error in
  a condition ends the whole statement.
\<close>

fun holds :: "(book_db \<Rightarrow> http_error + bool) list \<Rightarrow> book_db \<Rightarrow> http_error + bool" where
  "holds [] b = Inr True"
| "holds (c # cs) b =
     (case c b of
        Inl e \<Rightarrow> Inl e
      | Inr v \<Rightarrow> if v then holds cs b else Inr False)"

fun query_all ::
  "(book_db \<Rightarrow> http_error + bool) list \<Rightarrow> book_db list \<Rightarrow> http_error + book_db list" where
  "query_all cs [] = Inr []"
| "query_all cs (b # db) =
     (case holds cs b of
        Inl e \<Rightarrow> Inl e
      | Inr v \<Rightarrow>
          (case query_all cs db of
             Inl e \<Rightarrow> Inl e
           | Inr books \<Rightarrow> Inr (if v then b # books else books)))"

text \<open>
  \<^verbatim>\<open>search_books\<close>: \<^verbatim>\<open>if title:\<close> is false for \<^verbatim>\<open>None\<close> and for the empty
  string; the year is tested with \<^verbatim>\<open>is not None\<close>, and \<^verbatim>\<open>BookDB.year == year\<close>
  is never true of a row whose year is \<^verbatim>\<open>NULL\<close>.
\<close>

definition search_books ::
  "string option \<Rightarrow> string option \<Rightarrow> int option \<Rightarrow> book_db list \<Rightarrow> http_error + book_db list"
  where
  "search_books q_title q_author q_year db =
     (if (case q_year of None \<Rightarrow> False | Some y \<Rightarrow> \<not> (0 \<le> y \<and> y \<le> 2100))
      then Inl ValidationError
      else
        let query = [];
            query = (case q_title of
                       None \<Rightarrow> query
                     | Some t \<Rightarrow> if t = [] then query
                                else query @ [\<lambda>b. ilike (title b) (''%'' @ t @ ''%'')]);
            query = (case q_author of
                       None \<Rightarrow> query
                     | Some a \<Rightarrow> if a = [] then query
                                else query @ [\<lambda>b. ilike (author b) (''%'' @ a @ ''%'')]);
            query = (case q_year of
                       None \<Rightarrow> query
                     | Some y \<Rightarrow> query @ [\<lambda>b. Inr (year b = Some y)])
        in query_all query db)"

subsection \<open>Ids that SQLite cannot hold\<close>

text \<open>
  The id of a request is bound in \<^verbatim>\<open>filter(BookDB.id == book_id)\<close>, the first
  statement of the handler. The ids of the rows a table holds are within the range of
  SQLite, so \<open>read_book\<close>, \<open>update_book\<close> and \<open>delete_book\<close> above are the handlers
  as they run on the id of a stored row; the definitions below are the same handlers on
  every integer that a client can send. The body of an update is validated before the
  handler runs, hence before the id is bound. (In \<open>read_books\<close> the offset is bound
  after the validation of both parameters; a limit that passes it is at most 100, and the
  years of a body or a search are at most 2100.)
\<close>

definition read_book_request :: "int \<Rightarrow> book_db list \<Rightarrow> http_error + book_db" where
  "read_book_request i db =
     (if \<not> sqlite_integer i then Inl OverflowError else read_book i db)"

definition update_book_request ::
  "int \<Rightarrow> book_create \<Rightarrow> book_db list \<Rightarrow> (http_error + book_db) \<times> book_db list" where
  "update_book_request i book_update db =
     (if \<not> BookCreate_valid book_update then (Inl ValidationError, db)
      else if \<not> sqlite_integer i then (Inl OverflowError, db)
      else update_book i book_update db)"

definition delete_book_request ::
  "int \<Rightarrow> book_db list \<Rightarrow> (http_error + unit) \<times> book_db list" where
  "delete_book_request i db =
     (if \<not> sqlite_integer i then (Inl OverflowError, db) else delete_book i db)"

subsection \<open>Runs of the service\<close>

text \<open>
  The requests that can change the table, and the table after a sequence of them,
  starting from the empty table that \<^verbatim>\<open>Base.metadata.create_all\<close> creates.
\<close>

datatype request = Create book_create | Update int book_create | Delete int

fun handle :: "request \<Rightarrow> book_db list \<Rightarrow> book_db list" where
  "handle (Create book) db = snd (create_book book db)"
| "handle (Update i book) db = snd (update_book i book db)"
| "handle (Delete i) db = snd (delete_book i db)"

fun run :: "request list \<Rightarrow> book_db list \<Rightarrow> book_db list" where
  "run [] db = db"
| "run (r # rs) db = run rs (handle r db)"

subsection \<open>What a search is to return\<close>

text \<open>
  The criteria as the specification words them, to compare \<open>search_books\<close> with: a
  title or author criterion matches a record when it occurs in the field as a contiguous
  part, upper and lower case not distinguished; a year criterion matches when the record
  has exactly that year; a criterion that is not given matches every record; a record
  matches when all three criteria do. Upper and lower case are those of all the letters
  among the characters: besides A to Z, the letters from \<open>0xC0\<close> to \<open>0xDE\<close> (without
  the multiplication sign \<open>0xD7\<close>), whose lower case is 32 places further.
\<close>

definition casefold :: "char \<Rightarrow> char" where
  "casefold c =
     (case map_of (zip
        [CHR 0xC0, CHR 0xC1, CHR 0xC2, CHR 0xC3, CHR 0xC4, CHR 0xC5, CHR 0xC6, CHR 0xC7,
         CHR 0xC8, CHR 0xC9, CHR 0xCA, CHR 0xCB, CHR 0xCC, CHR 0xCD, CHR 0xCE, CHR 0xCF,
         CHR 0xD0, CHR 0xD1, CHR 0xD2, CHR 0xD3, CHR 0xD4, CHR 0xD5, CHR 0xD6,
         CHR 0xD8, CHR 0xD9, CHR 0xDA, CHR 0xDB, CHR 0xDC, CHR 0xDD, CHR 0xDE]
        [CHR 0xE0, CHR 0xE1, CHR 0xE2, CHR 0xE3, CHR 0xE4, CHR 0xE5, CHR 0xE6, CHR 0xE7,
         CHR 0xE8, CHR 0xE9, CHR 0xEA, CHR 0xEB, CHR 0xEC, CHR 0xED, CHR 0xEE, CHR 0xEF,
         CHR 0xF0, CHR 0xF1, CHR 0xF2, CHR 0xF3, CHR 0xF4, CHR 0xF5, CHR 0xF6,
         CHR 0xF8, CHR 0xF9, CHR 0xFA, CHR 0xFB, CHR 0xFC, CHR 0xFD, CHR 0xFE]) c of
        None \<Rightarrow> lower c
      | Some l \<Rightarrow> l)"

definition contains_ci :: "string \<Rightarrow> string \<Rightarrow> bool" where
  "contains_ci part text \<longleftrightarrow> sublist (map casefold part) (map casefold text)"

definition criteria_match ::
  "string option \<Rightarrow> string option \<Rightarrow> int option \<Rightarrow> book_db \<Rightarrow> bool" where
  "criteria_match q_title q_author q_year b \<longleftrightarrow>
     (case q_title of None \<Rightarrow> True | Some t \<Rightarrow> contains_ci t (title b)) \<and>
     (case q_author of None \<Rightarrow> True | Some a \<Rightarrow> contains_ci a (author b)) \<and>
     (case q_year of None \<Rightarrow> True | Some y \<Rightarrow> year b = Some y)"

text \<open>
  The narrower reading that the search does serve: a title or author criterion matches
  when it occurs in the field with only the case of the letters A to Z not distinguished,
  and the field holds no NUL character.
\<close>

definition contains_ascii_ci :: "string \<Rightarrow> string \<Rightarrow> bool" where
  "contains_ascii_ci part text \<longleftrightarrow>
     CHR 0x00 \<notin> set text \<and> sublist (map lower part) (map lower text)"

definition criteria_match_ascii ::
  "string option \<Rightarrow> string option \<Rightarrow> int option \<Rightarrow> book_db \<Rightarrow> bool" where
  "criteria_match_ascii q_title q_author q_year b \<longleftrightarrow>
     (case q_title of None \<Rightarrow> True | Some t \<Rightarrow> contains_ascii_ci t (title b)) \<and>
     (case q_author of None \<Rightarrow> True | Some a \<Rightarrow> contains_ascii_ci a (author b)) \<and>
     (case q_year of None \<Rightarrow> True | Some y \<Rightarrow> year b = Some y)"

text \<open>What a client can put into a title or author criterion without an error or a cut.\<close>

definition criterion_ok :: "string option \<Rightarrow> bool" where
  "criterion_ok q \<longleftrightarrow>
     (case q of None \<Rightarrow> True
      | Some t \<Rightarrow> CHR 0x00 \<notin> set t \<and> utf8_length t + 2 \<le> 50000)"

section \<open>lecture\_3/grade.py: the student grade tracker\<close>

text \<open>
  The program is one \<^verbatim>\<open>while True\<close> loop over a menu, reading its lines with
  \<^verbatim>\<open>input()\<close> and keeping the list \<^verbatim>\<open>students\<close> of dictionaries
  \<^verbatim>\<open>{"name": ..., "grades": [...]}\<close>. The model runs the loop on the list of the
  lines that standard input holds and returns the list of students when the program ends:
  at choice 5, or when \<^verbatim>\<open>input()\<close> finds no line left and raises \<^verbatim>\<open>EOFError\<close>,
  which nothing catches. What the program prints is not modelled.

  \<^verbatim>\<open>float\<close> is a parameter: \<open>None\<close> stands for \<^verbatim>\<open>ValueError\<close>. A grade is kept
  only when \<^verbatim>\<open>0 <= grade <= 100\<close>, so the grades kept are finite and are modelled as
  reals; a result outside that range stands also for the infinities and nan, which fail
  the test in the same way.
\<close>

record student =
  name :: string
  grades :: "real list"

text \<open>The inner loop of choice 2: lines are read until one is \<^verbatim>\<open>done\<close> in any case.\<close>

fun enter_grades ::
  "(string \<Rightarrow> real option) \<Rightarrow> real list \<Rightarrow> string list \<Rightarrow> real list \<times> string list" where
  "enter_grades float gs [] = (gs, [])"
| "enter_grades float gs (grade_input # inp) =
     (if map lower grade_input = ''done'' then (gs, inp)
      else
        (case float grade_input of
           None \<Rightarrow> enter_grades float gs inp
         | Some grade \<Rightarrow>
             if 0 \<le> grade \<and> grade \<le> 100 then enter_grades float (gs @ [grade]) inp
             else enter_grades float gs inp))"

text \<open>
  \<^verbatim>\<open>for student in students: if student["name"] == name: ...; break\<close>: the grades go
  to the first student of that name.
\<close>

fun add_grades ::
  "(string \<Rightarrow> real option) \<Rightarrow> string \<Rightarrow> student list \<Rightarrow> string list \<Rightarrow>
   student list \<times> string list" where
  "add_grades float nm [] inp = ([], inp)"
| "add_grades float nm (student # rest) inp =
     (if name student = nm then
        (case enter_grades float (grades student) inp of
           (gs, inp') \<Rightarrow> (student\<lparr>grades := gs\<rparr> # rest, inp'))
      else
        (case add_grades float nm rest inp of
           (rest', inp') \<Rightarrow> (student # rest', inp')))"

lemma enter_grades_length: "length (snd (enter_grades float gs inp)) \<le> length inp"
  by (induction float gs inp rule: enter_grades.induct) (auto split: option.splits)

lemma add_grades_length: "length (snd (add_grades float nm students inp)) \<le> length inp"
proof (induction students)
  case Nil
  show ?case by simp
next
  case (Cons student rest)
  show ?case
  proof (cases "name student = nm")
    case True
    then show ?thesis
      using enter_grades_length [of float "grades student" inp]
      by (auto split: prod.splits)
  next
    case False
    then show ?thesis
      using Cons.IH by (auto split: prod.splits)
  qed
qed

text \<open>
  The menu loop. Choices 3 and 4 only print (their divisions are guarded), and any other
  line is ignored: the loop goes on with the list as it is.
\<close>

function main_loop ::
  "(string \<Rightarrow> real option) \<Rightarrow> student list \<Rightarrow> string list \<Rightarrow> student list" where
  "main_loop float students [] = students"
| "main_loop float students (choice # inp) =
     (if choice = ''1'' then
        (case inp of
           [] \<Rightarrow> students
         | new_name # inp' \<Rightarrow>
             if list_ex (\<lambda>s. name s = new_name) students then main_loop float students inp'
             else main_loop float (students @ [\<lparr>name = new_name, grades = []\<rparr>]) inp')
      else if choice = ''2'' then
        (case inp of
           [] \<Rightarrow> students
         | nm # inp' \<Rightarrow>
             if list_ex (\<lambda>s. name s = nm) students then
               main_loop float (fst (add_grades float nm students inp'))
                 (snd (add_grades float nm students inp'))
             else main_loop float students inp')
      else if choice = ''3'' \<or> choice = ''4'' then main_loop float students inp
      else if choice = ''5'' then students
      else main_loop float students inp)"
  by pat_completeness auto
termination
  by (relation "measure (\<lambda>(float, students, inp). length inp)")
     (auto simp: case_prod_unfold less_Suc_eq_le intro: le_SucI add_grades_length)

section \<open>Theorems\<close>

subsection \<open>Facts about the table\<close>

lemma BookCreate_valid_iff:
  "BookCreate_valid book \<longleftrightarrow>
     title book \<noteq> [] \<and> author book \<noteq> [] \<and> (\<forall>y. year book = Some y \<longrightarrow> 0 \<le> y \<and> y \<le> 2100)"
  by (cases "year book") (auto simp: BookCreate_valid_def Suc_le_eq)

lemma next_rowid_greater: "b \<in> set db \<Longrightarrow> book_id b < next_rowid db"
proof -
  assume b: "b \<in> set db"
  then have "book_id b \<le> Max (set (map book_id db))"
    by (intro Max_ge) auto
  with b show ?thesis
    by (auto simp: next_rowid_def)
qed

lemma next_rowid_fresh: "next_rowid db \<notin> book_id ` set db"
  using next_rowid_greater by fastforce

lemma query_first_None_iff: "query_first i db = None \<longleftrightarrow> i \<notin> book_id ` set db"
  by (auto simp: query_first_def find_None_iff)

lemma query_first_SomeD: "query_first i db = Some b \<Longrightarrow> b \<in> set db \<and> book_id b = i"
  unfolding query_first_def by (induction db) (auto split: if_splits)

lemma query_first_append:
  "query_first i (db @ [b]) =
     (case query_first i db of Some r \<Rightarrow> Some r
      | None \<Rightarrow> if book_id b = i then Some b else None)"
  unfolding query_first_def by (induction db) auto

lemma query_first_map_other:
  "j \<noteq> i \<Longrightarrow> book_id r = i \<Longrightarrow>
   query_first j (map (\<lambda>b. if book_id b = i then r else b) db) = query_first j db"
  unfolding query_first_def by (induction db) auto

lemma query_first_map_same:
  "query_first i db = Some b \<Longrightarrow> book_id r = i \<Longrightarrow>
   query_first i (map (\<lambda>b. if book_id b = i then r else b) db) = Some r"
  unfolding query_first_def by (induction db) (auto split: if_splits)

lemma query_first_filter_same: "query_first i (filter (\<lambda>b. book_id b \<noteq> i) db) = None"
  by (auto simp: query_first_None_iff)

lemma filter_map_other:
  "book_id r = i \<Longrightarrow>
   filter (\<lambda>b. book_id b \<noteq> i) (map (\<lambda>b. if book_id b = i then r else b) db) =
   filter (\<lambda>b. book_id b \<noteq> i) db"
  by (induction db) auto

lemma map_id_update:
  "book_id r = i \<Longrightarrow> map book_id (map (\<lambda>b. if book_id b = i then r else b) db) = map book_id db"
  by (induction db) auto

subsection \<open>Create, read, update, delete\<close>

text \<open>
  C1. For every valid book (title and author not empty, a year, if given, between 0 and
  2100) and every table, \<open>create_book\<close> succeeds, and \<open>read_book\<close> on the id it
  returns yields the created record: equal to the request in title, author and year, and
  carrying the id the table assigned, which no row of the table had before.
\<close>

theorem create_book_then_read_book:
  assumes "title book \<noteq> []" and "author book \<noteq> []"
    and "\<forall>y. year book = Some y \<longrightarrow> 0 \<le> y \<and> y \<le> 2100"
  shows "\<exists>db_book db'. create_book book db = (Inr db_book, db') \<and>
           read_book (book_id db_book) db' = Inr db_book \<and>
           title db_book = title book \<and> author db_book = author book \<and>
           year db_book = year book \<and>
           book_id db_book = next_rowid db \<and> book_id db_book \<notin> book_id ` set db"
proof -
  let ?r = "\<lparr>title = title book, author = author book, year = year book,
             book_id = next_rowid db\<rparr>"
  from assms have valid: "BookCreate_valid book"
    by (simp add: BookCreate_valid_iff)
  then have c: "create_book book db = (Inr ?r, db @ [?r])"
    by (simp add: create_book_def Let_def)
  have "query_first (next_rowid db) db = None"
    by (simp add: query_first_None_iff next_rowid_fresh)
  then have "read_book (book_id ?r) (db @ [?r]) = Inr ?r"
    by (simp add: read_book_def query_first_append)
  with c show ?thesis
    by (simp add: next_rowid_fresh)
qed

theorem create_book_then_read_book_witness:
  "\<exists>db_book db'.
     create_book \<lparr>title = ''Dune'', author = ''Herbert'', year = Some 1965\<rparr>
       [\<lparr>title = ''Emma'', author = ''Austen'', year = None, book_id = 4\<rparr>] = (Inr db_book, db') \<and>
     read_book (book_id db_book) db' = Inr db_book \<and>
     title db_book = ''Dune'' \<and> author db_book = ''Herbert'' \<and> year db_book = Some 1965 \<and>
     book_id db_book = 5"
  using create_book_then_read_book
    [of "\<lparr>title = ''Dune'', author = ''Herbert'', year = Some 1965\<rparr>"
        "[\<lparr>title = ''Emma'', author = ''Austen'', year = None, book_id = 4\<rparr>]"]
  by (auto simp: next_rowid_def)

text \<open>
  C2. A create request whose title is empty, whose author is empty, or whose year lies
  outside 0 to 2100 fails with \<open>ValidationError\<close> (status 422), and the table after
  the request is the table before it: no row is persisted.
\<close>

theorem create_book_invalid:
  assumes "title book = [] \<or> author book = [] \<or> (\<exists>y. year book = Some y \<and> (y < 0 \<or> 2100 < y))"
  shows "create_book book db = (Inl ValidationError, db) \<and> status_code ValidationError = 422"
proof -
  from assms have "\<not> BookCreate_valid book"
    by (auto simp: BookCreate_valid_iff)
  then show ?thesis
    by (simp add: create_book_def)
qed

theorem create_book_invalid_witness:
  "create_book \<lparr>title = [], author = ''Herbert'', year = Some 1965\<rparr>
     [\<lparr>title = ''Emma'', author = ''Austen'', year = None, book_id = 4\<rparr>] =
   (Inl ValidationError, [\<lparr>title = ''Emma'', author = ''Austen'', year = None, book_id = 4\<rparr>]) \<and>
   create_book \<lparr>title = ''Dune'', author = ''Herbert'', year = Some 2101\<rparr> [] =
   (Inl ValidationError, []) \<and>
   create_book \<lparr>title = ''Dune'', author = [], year = None\<rparr> [] = (Inl ValidationError, [])"
  using create_book_invalid [of "\<lparr>title = [], author = ''Herbert'', year = Some 1965\<rparr>"
      "[\<lparr>title = ''Emma'', author = ''Austen'', year = None, book_id = 4\<rparr>]"]
    create_book_invalid [of "\<lparr>title = ''Dune'', author = ''Herbert'', year = Some 2101\<rparr>" "[]"]
    create_book_invalid [of "\<lparr>title = ''Dune'', author = [], year = None\<rparr>" "[]"]
  by simp

text \<open>
  C3. For every id present in the table and every valid replacement \<open>b2\<close>,
  \<open>update_book\<close> answers with \<open>b2\<close> under the same id, \<open>read_book\<close> of that id
  afterwards returns the same record, and every row with another id is unaffected:
  reading any other id gives what it gave before, the rows with other ids are the same
  rows in the same order, and the column of ids is unchanged.
\<close>

theorem update_book_then_read_book:
  assumes "i \<in> book_id ` set db"
    and "title b2 \<noteq> []" and "author b2 \<noteq> []"
    and "\<forall>y. year b2 = Some y \<longrightarrow> 0 \<le> y \<and> y \<le> 2100"
  shows "\<exists>db'. update_book i b2 db =
             (Inr \<lparr>title = title b2, author = author b2, year = year b2, book_id = i\<rparr>, db') \<and>
           read_book i db' =
             Inr \<lparr>title = title b2, author = author b2, year = year b2, book_id = i\<rparr> \<and>
           (\<forall>j. j \<noteq> i \<longrightarrow> read_book j db' = read_book j db) \<and>
           filter (\<lambda>b. book_id b \<noteq> i) db' = filter (\<lambda>b. book_id b \<noteq> i) db \<and>
           map book_id db' = map book_id db"
proof -
  let ?r = "\<lparr>title = title b2, author = author b2, year = year b2, book_id = i\<rparr>"
  let ?db' = "map (\<lambda>b. if book_id b = i then ?r else b) db"
  from assms have valid: "BookCreate_valid b2"
    by (simp add: BookCreate_valid_iff)
  from assms(1) obtain old where old: "query_first i db = Some old"
    using query_first_None_iff [of i db] by (cases "query_first i db") auto
  then have "book_id old = i"
    by (simp add: query_first_SomeD)
  then have "old\<lparr>title := title b2, author := author b2, year := year b2\<rparr> = ?r"
    by (cases old) simp
  with valid old have u: "update_book i b2 db = (Inr ?r, ?db')"
    by (simp add: update_book_def Let_def)
  have same: "read_book i ?db' = Inr ?r"
    using old by (simp add: read_book_def query_first_map_same)
  have others: "\<forall>j. j \<noteq> i \<longrightarrow> read_book j ?db' = read_book j db"
    by (simp add: read_book_def query_first_map_other)
  have frame: "filter (\<lambda>b. book_id b \<noteq> i) ?db' = filter (\<lambda>b. book_id b \<noteq> i) db"
    by (simp add: filter_map_other)
  have ids: "map book_id ?db' = map book_id db"
    by (simp add: map_id_update)
  from u same others frame ids show ?thesis
    by blast
qed

theorem update_book_then_read_book_witness:
  "\<exists>db'. update_book 4 \<lparr>title = ''Dune'', author = ''Herbert'', year = None\<rparr>
           [\<lparr>title = ''Emma'', author = ''Austen'', year = Some 1815, book_id = 4\<rparr>,
            \<lparr>title = ''Ulysses'', author = ''Joyce'', year = Some 1922, book_id = 7\<rparr>] =
         (Inr \<lparr>title = ''Dune'', author = ''Herbert'', year = None, book_id = 4\<rparr>, db') \<and>
         read_book 4 db' = Inr \<lparr>title = ''Dune'', author = ''Herbert'', year = None, book_id = 4\<rparr> \<and>
         read_book 7 db' =
           Inr \<lparr>title = ''Ulysses'', author = ''Joyce'', year = Some 1922, book_id = 7\<rparr>"
  using update_book_then_read_book
    [of 4 "[\<lparr>title = ''Emma'', author = ''Austen'', year = Some 1815, book_id = 4\<rparr>,
            \<lparr>title = ''Ulysses'', author = ''Joyce'', year = Some 1922, book_id = 7\<rparr>]"
        "\<lparr>title = ''Dune'', author = ''Herbert'', year = None\<rparr>"]
  by (auto simp: read_book_def query_first_def)

text \<open>
  C4, as stated: each of get, update and delete yields \<open>NotFound\<close> exactly when the id
  is absent. This fails in two ways. The body of an update is validated before the row is
  looked up, so an update with an invalid body of an absent id yields
  \<open>ValidationError\<close>. And an id outside the signed 64-bit range is absent from every
  table, yet get, delete and update with a valid body do not yield \<open>NotFound\<close> for it:
  binding it to the query raises \<^verbatim>\<open>OverflowError\<close>.
\<close>

theorem not_found_counterexample:
  "\<not> (fst (update_book_request 1 \<lparr>title = [], author = ''Herbert'', year = None\<rparr> []) =
        Inl NotFound \<longleftrightarrow> (1::int) \<notin> book_id ` set []) \<and>
   \<not> (read_book_request (2 ^ 63) [] = Inl NotFound \<longleftrightarrow> (2 ^ 63 :: int) \<notin> book_id ` set []) \<and>
   \<not> (fst (delete_book_request (2 ^ 63) []) = Inl NotFound \<longleftrightarrow>
        (2 ^ 63 :: int) \<notin> book_id ` set []) \<and>
   \<not> (fst (update_book_request (2 ^ 63)
          \<lparr>title = ''Dune'', author = ''Herbert'', year = None\<rparr> []) = Inl NotFound \<longleftrightarrow>
        (2 ^ 63 :: int) \<notin> book_id ` set [])"
  by (simp add: update_book_request_def read_book_request_def delete_book_request_def
      sqlite_integer_def BookCreate_valid_def)

text \<open>
  C4, amended: for every id in the signed 64-bit range, get and delete yield
  \<open>NotFound\<close> (status 404) exactly when the id is absent from the table, and so does
  update with a valid replacement; update with an invalid replacement yields
  \<open>ValidationError\<close> whether or not the id is present; and for every id present in the
  table, delete succeeds and get of that id afterwards yields \<open>NotFound\<close>.
\<close>

theorem not_found_iff_absent:
  "(sqlite_integer i \<longrightarrow>
      (read_book_request i db = Inl NotFound \<longleftrightarrow> i \<notin> book_id ` set db) \<and>
      (fst (delete_book_request i db) = Inl NotFound \<longleftrightarrow> i \<notin> book_id ` set db) \<and>
      (BookCreate_valid book \<longrightarrow>
         (fst (update_book_request i book db) = Inl NotFound \<longleftrightarrow> i \<notin> book_id ` set db))) \<and>
   (\<not> BookCreate_valid book \<longrightarrow> fst (update_book_request i book db) = Inl ValidationError) \<and>
   (sqlite_integer i \<and> i \<in> book_id ` set db \<longrightarrow>
      fst (delete_book_request i db) = Inr () \<and>
      read_book_request i (snd (delete_book_request i db)) = Inl NotFound) \<and>
   status_code NotFound = 404"
proof -
  have absent: "query_first i db = None \<longleftrightarrow> i \<notin> book_id ` set db"
    by (rule query_first_None_iff)
  have r: "sqlite_integer i \<longrightarrow>
      (read_book_request i db = Inl NotFound \<longleftrightarrow> i \<notin> book_id ` set db)"
    using absent by (auto simp: read_book_request_def read_book_def split: option.splits)
  have d: "sqlite_integer i \<longrightarrow>
      (fst (delete_book_request i db) = Inl NotFound \<longleftrightarrow> i \<notin> book_id ` set db)"
    using absent by (auto simp: delete_book_request_def delete_book_def split: option.splits)
  have u: "sqlite_integer i \<longrightarrow> BookCreate_valid book \<longrightarrow>
      (fst (update_book_request i book db) = Inl NotFound \<longleftrightarrow> i \<notin> book_id ` set db)"
    using absent
    by (auto simp: update_book_request_def update_book_def Let_def split: option.splits)
  have v: "\<not> BookCreate_valid book \<longrightarrow>
      fst (update_book_request i book db) = Inl ValidationError"
    by (simp add: update_book_request_def)
  have dr: "sqlite_integer i \<and> i \<in> book_id ` set db \<longrightarrow>
      fst (delete_book_request i db) = Inr () \<and>
      read_book_request i (snd (delete_book_request i db)) = Inl NotFound"
  proof
    assume a: "sqlite_integer i \<and> i \<in> book_id ` set db"
    then obtain b where b: "query_first i db = Some b"
      using absent by (cases "query_first i db") auto
    with a have "delete_book_request i db = (Inr (), filter (\<lambda>b. book_id b \<noteq> i) db)"
      by (simp add: delete_book_request_def delete_book_def)
    with a show "fst (delete_book_request i db) = Inr () \<and>
      read_book_request i (snd (delete_book_request i db)) = Inl NotFound"
      by (simp add: read_book_request_def read_book_def query_first_filter_same)
  qed
  from r d u v dr show ?thesis
    by simp
qed

theorem not_found_iff_absent_witness:
  "sqlite_integer 7 \<and> sqlite_integer 4 \<and>
   read_book_request 7 [\<lparr>title = ''Emma'', author = ''Austen'', year = None, book_id = 4\<rparr>] =
     Inl NotFound \<and>
   read_book_request 4 [\<lparr>title = ''Emma'', author = ''Austen'', year = None, book_id = 4\<rparr>] \<noteq>
     Inl NotFound \<and>
   fst (update_book_request 7 \<lparr>title = ''Dune'', author = ''Herbert'', year = None\<rparr>
     [\<lparr>title = ''Emma'', author = ''Austen'', year = None, book_id = 4\<rparr>]) = Inl NotFound \<and>
   fst (update_book_request 7 \<lparr>title = [], author = ''Herbert'', year = None\<rparr>
     [\<lparr>title = ''Emma'', author = ''Austen'', year = None, book_id = 4\<rparr>]) =
     Inl ValidationError \<and>
   fst (delete_book_request 4
     [\<lparr>title = ''Emma'', author = ''Austen'', year = None, book_id = 4\<rparr>]) = Inr () \<and>
   read_book_request 4
     (snd (delete_book_request 4
        [\<lparr>title = ''Emma'', author = ''Austen'', year = None, book_id = 4\<rparr>])) =
   Inl NotFound"
  using not_found_iff_absent
      [of 7 "[\<lparr>title = ''Emma'', author = ''Austen'', year = None, book_id = 4\<rparr>]"
          "\<lparr>title = ''Dune'', author = ''Herbert'', year = None\<rparr>"]
    not_found_iff_absent
      [of 7 "[\<lparr>title = ''Emma'', author = ''Austen'', year = None, book_id = 4\<rparr>]"
          "\<lparr>title = [], author = ''Herbert'', year = None\<rparr>"]
    not_found_iff_absent
      [of 4 "[\<lparr>title = ''Emma'', author = ''Austen'', year = None, book_id = 4\<rparr>]"
          "\<lparr>title = ''Dune'', author = ''Herbert'', year = None\<rparr>"]
  by (simp add: BookCreate_valid_def sqlite_integer_def)

subsection \<open>Facts about runs\<close>

lemma create_book_valid:
  "BookCreate_valid book \<Longrightarrow>
   create_book book db =
     (Inr \<lparr>title = title book, author = author book, year = year book, book_id = next_rowid db\<rparr>,
      db @ [\<lparr>title = title book, author = author book, year = year book,
              book_id = next_rowid db\<rparr>])"
  by (simp add: create_book_def Let_def)

lemma snd_update_book_ids: "map book_id (snd (update_book i book db)) = map book_id db"
proof (cases "BookCreate_valid book")
  case False
  then show ?thesis by (simp add: update_book_def)
next
  case True
  show ?thesis
  proof (cases "query_first i db")
    case None
    with True show ?thesis by (simp add: update_book_def)
  next
    case (Some old)
    then have "book_id (old\<lparr>title := title book, author := author book, year := year book\<rparr>) = i"
      by (simp add: query_first_SomeD)
    with True Some show ?thesis
      by (simp add: update_book_def Let_def map_id_update del: map_map)
  qed
qed

lemma snd_delete_book: "snd (delete_book i db) = filter (\<lambda>b. book_id b \<noteq> i) db"
proof (cases "query_first i db")
  case None
  then have "\<forall>b\<in>set db. book_id b \<noteq> i"
    by (auto simp: query_first_None_iff)
  then have "filter (\<lambda>b. book_id b \<noteq> i) db = db"
    by (simp add: filter_id_conv)
  with None show ?thesis by (simp add: delete_book_def)
next
  case (Some b)
  then show ?thesis by (simp add: delete_book_def)
qed

lemma rowid_order_handle:
  assumes "sorted_wrt (<) (map book_id db)"
  shows "sorted_wrt (<) (map book_id (handle r db))"
proof (cases r)
  case (Create book)
  show ?thesis
  proof (cases "BookCreate_valid book")
    case True
    with assms Create show ?thesis
      by (auto simp: create_book_valid sorted_wrt_append next_rowid_greater)
  next
    case False
    with assms Create show ?thesis by (simp add: create_book_def)
  qed
next
  case (Update i book)
  with assms show ?thesis by (simp add: snd_update_book_ids)
next
  case (Delete i)
  have "map book_id (filter (\<lambda>b. book_id b \<noteq> i) db) = filter (\<lambda>j. j \<noteq> i) (map book_id db)"
    by (simp add: filter_map comp_def)
  with assms Delete show ?thesis
    by (simp add: snd_delete_book sorted_wrt_filter)
qed

lemma rowid_order_run:
  "sorted_wrt (<) (map book_id db) \<Longrightarrow> sorted_wrt (<) (map book_id (run rs db))"
  by (induction rs arbitrary: db) (simp_all add: rowid_order_handle)

lemma distinct_ids_run: "distinct (map book_id (run rs []))"
proof -
  have "sorted_wrt (<) (map book_id (run rs []))"
    by (rule rowid_order_run) simp
  then show ?thesis
    by (simp add: strict_sorted_iff)
qed

lemma run_creates:
  "\<forall>b\<in>set bs. BookCreate_valid b \<Longrightarrow>
   \<exists>news. run (map Create bs) db = db @ news \<and>
     map title news = map title bs \<and> map author news = map author bs \<and>
     map year news = map year bs"
proof (induction bs arbitrary: db)
  case Nil
  then show ?case by simp
next
  case (Cons b bs)
  let ?r = "\<lparr>title = title b, author = author b, year = year b, book_id = next_rowid db\<rparr>"
  from Cons.prems have b: "BookCreate_valid b" and bs: "\<forall>b\<in>set bs. BookCreate_valid b"
    by simp_all
  from Cons.IH [OF bs, of "db @ [?r]"] obtain news where
    news: "run (map Create bs) (db @ [?r]) = (db @ [?r]) @ news"
      "map title news = map title bs" "map author news = map author bs"
      "map year news = map year bs"
    by blast
  have "run (map Create (b # bs)) db = db @ (?r # news)"
    using b news(1) by (simp add: create_book_valid)
  moreover have "map title (?r # news) = map title (b # bs)"
    "map author (?r # news) = map author (b # bs)" "map year (?r # news) = map year (b # bs)"
    using news by simp_all
  ultimately show ?case by blast
qed

text \<open>
  On a table whose ids SQLite can hold, the requests on any integer leave the same tables
  as the handlers that \<open>run\<close> is made of.
\<close>

lemma request_tables:
  assumes "\<forall>b\<in>set db. sqlite_integer (book_id b)"
  shows "snd (update_book_request i book db) = snd (update_book i book db)"
    and "snd (delete_book_request i db) = snd (delete_book i db)"
proof -
  have absent: "query_first i db = None" if "\<not> sqlite_integer i"
    using that assms by (auto simp: query_first_None_iff)
  show "snd (update_book_request i book db) = snd (update_book i book db)"
    by (cases "sqlite_integer i") (simp_all add: update_book_request_def update_book_def absent)
  show "snd (delete_book_request i db) = snd (delete_book i db)"
    by (cases "sqlite_integer i") (simp_all add: delete_book_request_def delete_book_def absent)
qed

subsection \<open>Listing\<close>

text \<open>
  C6, as stated: for every \<open>skip \<ge> 0\<close> and \<open>limit\<close> from 1 to 100 the listing returns
  a page of the books. The validation of \<open>skip\<close> has no upper bound, and a \<open>skip\<close>
  of \<open>2 ^ 63\<close> or more cannot be bound as the offset of the query: the request ends in
  \<^verbatim>\<open>OverflowError\<close> (status 500) and returns no page.
\<close>

theorem read_books_skip_counterexample:
  "(0::int) \<le> 2 ^ 63 \<and> (1::int) \<le> 1 \<and> (1::int) \<le> 100 \<and>
   read_books (2 ^ 63) 1
     (run (map Create [\<lparr>title = ''Emma'', author = ''Austen'', year = None\<rparr>,
        \<lparr>title = ''Dune'', author = ''Herbert'', year = Some 1965\<rparr>,
        \<lparr>title = ''Ulysses'', author = ''Joyce'', year = Some 1922\<rparr>]) []) =
   Inl OverflowError \<and>
   status_code OverflowError = 500"
  by (simp add: read_books_def sqlite_integer_def)

text \<open>
  C6, amended: for every \<open>skip\<close> with \<open>0 \<le> skip < 2 ^ 63\<close> and \<open>limit\<close> from 1 to
  100, the listing returns the books in insertion order, \<open>limit\<close> of them after the first
  \<open>skip\<close>: when valid books \<open>bs\<close> are created one after the other in any table \<open>db\<close>,
  the table is then \<open>db\<close> followed by one new row for each book of \<open>bs\<close>, in the order
  of creation and with its title, author and year, and the listing is the page cut out of
  that sequence. In particular, after three books are created in the empty table, the
  listing with \<open>skip = 0\<close> and \<open>limit = 1\<close> returns exactly the record created first.
  (Updates and deletions keep the order of the rows that remain: \<open>snd_update_book_ids\<close>,
  \<open>snd_delete_book\<close>.)
\<close>

theorem read_books_insertion_order:
  assumes "0 \<le> skip" and "skip < 2 ^ 63" and "1 \<le> limit" and "limit \<le> 100"
    and "\<forall>b\<in>set bs. BookCreate_valid b"
  shows "(\<exists>news. run (map Create bs) db = db @ news \<and>
            map title news = map title bs \<and> map author news = map author bs \<and>
            map year news = map year bs \<and>
            read_books skip limit (run (map Create bs) db) =
              Inr (take (nat limit) (drop (nat skip) (db @ news)))) \<and>
         (length bs = 3 \<longrightarrow>
            read_books 0 1 (run (map Create bs) []) =
              Inr [\<lparr>title = title (hd bs), author = author (hd bs), year = year (hd bs),
                     book_id = 1\<rparr>])"
proof
  from run_creates [OF assms(5), of db] obtain news where
    news: "run (map Create bs) db = db @ news"
      "map title news = map title bs" "map author news = map author bs"
      "map year news = map year bs"
    by blast
  have "read_books skip limit (db @ news) =
      Inr (take (nat limit) (drop (nat skip) (db @ news)))"
    using assms(1-4) by (simp add: read_books_def sqlite_integer_def)
  with news show "\<exists>news. run (map Create bs) db = db @ news \<and>
           map title news = map title bs \<and> map author news = map author bs \<and>
           map year news = map year bs \<and>
           read_books skip limit (run (map Create bs) db) =
             Inr (take (nat limit) (drop (nat skip) (db @ news)))"
    by auto
next
  show "length bs = 3 \<longrightarrow>
          read_books 0 1 (run (map Create bs) []) =
            Inr [\<lparr>title = title (hd bs), author = author (hd bs), year = year (hd bs),
                   book_id = 1\<rparr>]"
  proof
    assume "length bs = 3"
    then obtain b1 b2 b3 where bs: "bs = [b1, b2, b3]"
      by (auto simp: length_Suc_conv numeral_3_eq_3)
    with assms(5) have "BookCreate_valid b1" "BookCreate_valid b2" "BookCreate_valid b3"
      by simp_all
    then show "read_books 0 1 (run (map Create bs) []) =
             Inr [\<lparr>title = title (hd bs), author = author (hd bs), year = year (hd bs),
                    book_id = 1\<rparr>]"
      by (simp add: bs create_book_valid read_books_def
          sqlite_integer_def next_rowid_def)
  qed
qed

theorem read_books_insertion_order_witness:
  "BookCreate_valid \<lparr>title = ''Emma'', author = ''Austen'', year = None\<rparr> \<and>
   BookCreate_valid \<lparr>title = ''Dune'', author = ''Herbert'', year = Some 1965\<rparr> \<and>
   BookCreate_valid \<lparr>title = ''Ulysses'', author = ''Joyce'', year = Some 1922\<rparr> \<and>
   read_books 0 1
     (run (map Create [\<lparr>title = ''Emma'', author = ''Austen'', year = None\<rparr>,
        \<lparr>title = ''Dune'', author = ''Herbert'', year = Some 1965\<rparr>,
        \<lparr>title = ''Ulysses'', author = ''Joyce'', year = Some 1922\<rparr>]) []) =
   Inr [\<lparr>title = ''Emma'', author = ''Austen'', year = None, book_id = 1\<rparr>] \<and>
   (\<exists>news. run (map Create [\<lparr>title = ''Emma'', author = ''Austen'', year = None\<rparr>,
        \<lparr>title = ''Dune'', author = ''Herbert'', year = Some 1965\<rparr>,
        \<lparr>title = ''Ulysses'', author = ''Joyce'', year = Some 1922\<rparr>])
       [\<lparr>title = ''Walden'', author = ''Thoreau'', year = Some 1854, book_id = 6\<rparr>] =
     [\<lparr>title = ''Walden'', author = ''Thoreau'', year = Some 1854, book_id = 6\<rparr>] @ news \<and>
     map title news = [''Emma'', ''Dune'', ''Ulysses''] \<and>
     read_books 1 2
       (run (map Create [\<lparr>title = ''Emma'', author = ''Austen'', year = None\<rparr>,
        \<lparr>title = ''Dune'', author = ''Herbert'', year = Some 1965\<rparr>,
        \<lparr>title = ''Ulysses'', author = ''Joyce'', year = Some 1922\<rparr>])
       [\<lparr>title = ''Walden'', author = ''Thoreau'', year = Some 1854, book_id = 6\<rparr>]) =
     Inr (take 2 news))"
proof -
  let ?bs = "[\<lparr>title = ''Emma'', author = ''Austen'', year = None\<rparr>,
        \<lparr>title = ''Dune'', author = ''Herbert'', year = Some 1965\<rparr>,
        \<lparr>title = ''Ulysses'', author = ''Joyce'', year = Some 1922\<rparr>]"
  let ?db = "[\<lparr>title = ''Walden'', author = ''Thoreau'', year = Some 1854, book_id = 6\<rparr>]"
  have v: "\<forall>b\<in>set ?bs. BookCreate_valid b"
    by (simp add: BookCreate_valid_def)
  have a: "(0::int) \<le> 0" "(0::int) < 2 ^ 63" "(1::int) \<le> 1" "(1::int) \<le> 100"
    and b: "(0::int) \<le> 1" "(1::int) < 2 ^ 63" "(1::int) \<le> 2" "(2::int) \<le> 100"
    by simp_all
  have first: "read_books 0 1 (run (map Create ?bs) []) =
      Inr [\<lparr>title = ''Emma'', author = ''Austen'', year = None, book_id = 1\<rparr>]"
    using conjunct2 [OF read_books_insertion_order [OF a v, of "[]"]] by simp
  from conjunct1 [OF read_books_insertion_order [OF b v, of ?db]] obtain news where
    "run (map Create ?bs) ?db = ?db @ news" "map title news = map title ?bs"
    "read_books 1 2 (run (map Create ?bs) ?db) =
       Inr (take (nat 2) (drop (nat 1) (?db @ news)))"
    by blast
  then have "run (map Create ?bs) ?db = ?db @ news \<and>
     map title news = [''Emma'', ''Dune'', ''Ulysses''] \<and>
     read_books 1 2 (run (map Create ?bs) ?db) = Inr (take 2 news)"
    by simp
  then have "\<exists>news. run (map Create ?bs) ?db = ?db @ news \<and>
     map title news = [''Emma'', ''Dune'', ''Ulysses''] \<and>
     read_books 1 2 (run (map Create ?bs) ?db) = Inr (take 2 news)" ..
  with v first show ?thesis by simp
qed

subsection \<open>Searching\<close>

text \<open>
  A \<^verbatim>\<open>LIKE\<close> pattern \<^verbatim>\<open>%n%\<close> matches every text that contains \<open>n\<close>, whatever
  characters \<open>n\<close> is made of; when \<open>n\<close> has neither \<^verbatim>\<open>%\<close> nor \<^verbatim>\<open>_\<close> it
  matches no other text.
\<close>

lemma lower_percent [simp]: "lower CHR ''%'' = CHR ''%''"
  by (simp add: lower_def)

lemma lower_eq_percent: "lower c = CHR ''%'' \<longleftrightarrow> c = CHR ''%''"
  by (simp add: lower_def)

lemma lower_eq_underscore: "lower c = CHR ''_'' \<longleftrightarrow> c = CHR ''_''"
  by (simp add: lower_def)

lemma lower_eq_NUL: "lower c = CHR 0x00 \<longleftrightarrow> c = CHR 0x00"
  by (simp add: lower_def)

lemma lower_lower [simp]: "lower (lower c) = lower c"
  by (simp add: lower_def)

lemma digit7_lower [simp]: "digit7 (lower c) = digit7 c"
  by (simp add: lower_def)

lemma like_percent_all: "like ''%'' cs"
  by (induction cs) simp_all

lemma like_percent_empty: "like ps cs \<Longrightarrow> like (CHR ''%'' # ps) cs"
  by simp

lemma like_percent_skip: "like (CHR ''%'' # ps) cs \<Longrightarrow> like (CHR ''%'' # ps) (xs @ cs)"
  by (induction xs) simp_all

lemma like_same_prefix: "like (n @ ''%'') (n @ post)"
proof (induction n)
  case Nil
  show ?case using like_percent_all by simp
next
  case (Cons c n)
  show ?case
  proof (cases "c = CHR ''%''")
    case True
    have "like (CHR ''%'' # n @ ''%'') (n @ post)"
      using Cons.IH by (rule like_percent_empty)
    with True show ?thesis by simp
  next
    case False
    with Cons.IH show ?thesis by simp
  qed
qed

lemma like_of_sublist:
  assumes "sublist n cs"
  shows "like (CHR ''%'' # n @ ''%'') cs"
proof -
  from assms obtain pre post where cs: "cs = pre @ n @ post"
    by (auto simp: sublist_def)
  have "like (CHR ''%'' # n @ ''%'') (n @ post)"
    using like_same_prefix by (rule like_percent_empty)
  then show ?thesis
    unfolding cs by (rule like_percent_skip)
qed

lemma like_literal_prefix:
  "CHR ''%'' \<notin> set n \<Longrightarrow> CHR ''_'' \<notin> set n \<Longrightarrow> like (n @ ''%'') cs \<Longrightarrow>
   prefix (map lower n) (map lower cs)"
proof (induction n arbitrary: cs)
  case Nil
  show ?case by simp
next
  case (Cons p ps)
  from Cons.prems obtain c cs' where cs: "cs = c # cs'"
    by (cases cs) auto
  with Cons.prems have "lower p = lower c" "like (ps @ ''%'') cs'"
    by auto
  moreover from Cons.prems have "CHR ''%'' \<notin> set ps" "CHR ''_'' \<notin> set ps"
    by auto
  ultimately show ?case
    using Cons.IH [of cs'] by (simp add: cs)
qed

lemma like_literal_sublist:
  "CHR ''%'' \<notin> set n \<Longrightarrow> CHR ''_'' \<notin> set n \<Longrightarrow> like (CHR ''%'' # n @ ''%'') cs \<Longrightarrow>
   sublist (map lower n) (map lower cs)"
proof (induction cs)
  case Nil
  then have "like (n @ ''%'') []" by simp
  with Nil.prems have "prefix (map lower n) (map lower [])"
    by (intro like_literal_prefix)
  then show ?case by simp
next
  case (Cons c cs)
  from Cons.prems(3) consider "like (n @ ''%'') (c # cs)" | "like (CHR ''%'' # n @ ''%'') cs"
    by auto
  then show ?case
  proof cases
    case 1
    with Cons.prems have "prefix (map lower n) (map lower (c # cs))"
      by (intro like_literal_prefix)
    then show ?thesis
      by (rule prefix_imp_sublist)
  next
    case 2
    with Cons have "sublist (map lower n) (map lower cs)"
      by simp
    then show ?thesis
      by (simp add: sublist_Cons_right)
  qed
qed

text \<open>
  The operands of \<^verbatim>\<open>LIKE\<close>: folding the letters A to Z changes neither the length in
  bytes nor where the first NUL is, and a text without NUL is a C string as it stands.
\<close>

lemma utf8_length_lower [simp]: "utf8_length (map lower s) = utf8_length s"
  by (simp add: utf8_length_def filter_map comp_def)

lemma utf8_length_pattern [simp]:
  "utf8_length (CHR ''%'' # t @ ''%'') = utf8_length t + 2"
  by (simp add: utf8_length_def)

lemma c_string_no_NUL: "CHR 0x00 \<notin> set s \<Longrightarrow> c_string s = s"
  by (auto simp: c_string_def takeWhile_eq_all_conv)

lemma no_NUL_lower: "CHR 0x00 \<notin> set s \<Longrightarrow> CHR 0x00 \<notin> set (map lower s)"
  by (auto dest: lower_eq_NUL [THEN iffD1] sym)

lemma ilike_within_limit:
  assumes "utf8_length t + 2 \<le> 50000"
  shows "ilike col (CHR ''%'' # t @ ''%'') =
    Inr (like (c_string (CHR ''%'' # map lower t @ ''%'')) (c_string (map lower col)))"
  using assms by (simp add: ilike_def sqlite_like_def del: like.simps)

lemma ilike_no_NUL:
  assumes "utf8_length t + 2 \<le> 50000" and "CHR 0x00 \<notin> set t" and "CHR 0x00 \<notin> set col"
  shows "ilike col (CHR ''%'' # t @ ''%'') =
    Inr (like (CHR ''%'' # map lower t @ ''%'') (map lower col))"
proof -
  from assms(2) have "CHR 0x00 \<notin> set (CHR ''%'' # map lower t @ ''%'')"
    using no_NUL_lower [of t] by simp
  then have "c_string (CHR ''%'' # map lower t @ ''%'') = CHR ''%'' # map lower t @ ''%''"
    by (rule c_string_no_NUL)
  moreover from assms(3) have "c_string (map lower col) = map lower col"
    by (intro c_string_no_NUL no_NUL_lower)
  ultimately show ?thesis
    using ilike_within_limit [OF assms(1), of col] by (simp del: like.simps)
qed


lemma ilike_literal_iff:
  assumes "utf8_length t + 2 \<le> 50000" and "CHR 0x00 \<notin> set t" and "CHR 0x00 \<notin> set col"
    and "CHR ''%'' \<notin> set t" and "CHR ''_'' \<notin> set t"
  shows "ilike col (CHR ''%'' # t @ ''%'') = Inr (contains_ascii_ci t col)"
proof -
  have "like (CHR ''%'' # map lower t @ ''%'') (map lower col) \<longleftrightarrow> contains_ascii_ci t col"
  proof
    assume l: "like (CHR ''%'' # map lower t @ ''%'') (map lower col)"
    from assms(4,5) have "CHR ''%'' \<notin> set (map lower t)" "CHR ''_'' \<notin> set (map lower t)"
      by (auto dest: lower_eq_percent [THEN iffD1] lower_eq_underscore [THEN iffD1] sym)
    from like_literal_sublist [OF this l] assms(3) show "contains_ascii_ci t col"
      by (simp add: contains_ascii_ci_def comp_def)
  next
    assume "contains_ascii_ci t col"
    then have "sublist (map lower t) (map lower col)"
      by (simp add: contains_ascii_ci_def)
    then show "like (CHR ''%'' # map lower t @ ''%'') (map lower col)"
      by (rule like_of_sublist)
  qed
  then show ?thesis
    using ilike_no_NUL [OF assms(1-3)] by (simp del: like.simps)
qed

text \<open>A query whose conditions raise no error returns the rows on which all of them hold.\<close>

lemma query_all_filter:
  "\<forall>b\<in>set db. holds cs b = Inr (P b) \<Longrightarrow> query_all cs db = Inr (filter P db)"
  by (induction db) simp_all



lemma search_books_eq_filter:
  assumes "\<forall>y. q_year = Some y \<longrightarrow> 0 \<le> y \<and> y \<le> 2100"
    and "\<forall>t. q_title = Some t \<longrightarrow> utf8_length t + 2 \<le> 50000"
    and "\<forall>a. q_author = Some a \<longrightarrow> utf8_length a + 2 \<le> 50000"
  shows "search_books q_title q_author q_year db =
    Inr (filter (\<lambda>b.
      (case q_title of None \<Rightarrow> True
       | Some t \<Rightarrow> t = [] \<or> ilike (title b) (CHR ''%'' # t @ ''%'') = Inr True) \<and>
      (case q_author of None \<Rightarrow> True
       | Some a \<Rightarrow> a = [] \<or> ilike (author b) (CHR ''%'' # a @ ''%'') = Inr True) \<and>
      (case q_year of None \<Rightarrow> True | Some y \<Rightarrow> year b = Some y)) db)"
proof -
  let ?T = "\<lambda>b. case q_title of None \<Rightarrow> True
       | Some t \<Rightarrow> t = [] \<or> ilike (title b) (CHR ''%'' # t @ ''%'') = Inr True"
  let ?A = "\<lambda>b. case q_author of None \<Rightarrow> True
       | Some a \<Rightarrow> a = [] \<or> ilike (author b) (CHR ''%'' # a @ ''%'') = Inr True"
  let ?Y = "\<lambda>b. case q_year of None \<Rightarrow> True | Some y \<Rightarrow> year b = Some y"
  let ?ct = "case q_title of None \<Rightarrow> []
       | Some t \<Rightarrow> if t = [] then [] else [\<lambda>b. ilike (title b) (CHR ''%'' # t @ ''%'')]"
  let ?ca = "case q_author of None \<Rightarrow> []
       | Some a \<Rightarrow> if a = [] then [] else [\<lambda>b. ilike (author b) (CHR ''%'' # a @ ''%'')]"
  let ?cy = "case q_year of None \<Rightarrow> [] | Some y \<Rightarrow> [\<lambda>b. Inr (year b = Some y)]"
  have query: "search_books q_title q_author q_year db = query_all (?ct @ ?ca @ ?cy) db"
    using assms(1) by (auto simp: search_books_def Let_def split: option.splits)
  have app: "holds (cs @ ds) b = (case holds cs b of Inl e \<Rightarrow> Inl e
       | Inr v \<Rightarrow> if v then holds ds b else Inr False)" for cs ds b
    by (induction cs) (auto split: sum.splits)
  have t: "holds ?ct b = Inr (?T b)" for b
    using assms(2) by (cases q_title) (auto simp: ilike_within_limit simp del: like.simps)
  have a: "holds ?ca b = Inr (?A b)" for b
    using assms(3) by (cases q_author) (auto simp: ilike_within_limit simp del: like.simps)
  have y: "holds ?cy b = Inr (?Y b)" for b
    by (cases q_year) auto
  have "holds (?ct @ ?ca @ ?cy) b = Inr (?T b \<and> ?A b \<and> ?Y b)" for b
    by (simp only: app t a y) auto
  then have "query_all (?ct @ ?ca @ ?cy) db = Inr (filter (\<lambda>b. ?T b \<and> ?A b \<and> ?Y b) db)"
    by (intro query_all_filter) blast
  with query show ?thesis
    by simp
qed


lemma search_books_literal_criteria:
  assumes "\<forall>y. q_year = Some y \<longrightarrow> 0 \<le> y \<and> y \<le> 2100"
    and "criterion_ok q_title" and "criterion_ok q_author"
    and "\<forall>t. q_title = Some t \<longrightarrow> CHR ''%'' \<notin> set t \<and> CHR ''_'' \<notin> set t"
    and "\<forall>a. q_author = Some a \<longrightarrow> CHR ''%'' \<notin> set a \<and> CHR ''_'' \<notin> set a"
    and "\<forall>b\<in>set db. CHR 0x00 \<notin> set (title b) \<and> CHR 0x00 \<notin> set (author b)"
  shows "search_books q_title q_author q_year db =
    Inr (filter (criteria_match_ascii q_title q_author q_year) db)"
proof -
  have lt: "\<forall>t. q_title = Some t \<longrightarrow> utf8_length t + 2 \<le> 50000"
    and la: "\<forall>a. q_author = Some a \<longrightarrow> utf8_length a + 2 \<le> 50000"
    using assms(2,3) by (auto simp: criterion_ok_def)
  have "filter (\<lambda>b.
      (case q_title of None \<Rightarrow> True
       | Some t \<Rightarrow> t = [] \<or> ilike (title b) (CHR ''%'' # t @ ''%'') = Inr True) \<and>
      (case q_author of None \<Rightarrow> True
       | Some a \<Rightarrow> a = [] \<or> ilike (author b) (CHR ''%'' # a @ ''%'') = Inr True) \<and>
      (case q_year of None \<Rightarrow> True | Some y \<Rightarrow> year b = Some y)) db =
    filter (criteria_match_ascii q_title q_author q_year) db"
  proof (rule filter_cong [OF refl])
    fix b
    assume "b \<in> set db"
    with assms(6) have nul: "CHR 0x00 \<notin> set (title b)" "CHR 0x00 \<notin> set (author b)"
      by simp_all
    have t: "(case q_title of None \<Rightarrow> True
       | Some t \<Rightarrow> t = [] \<or> ilike (title b) (CHR ''%'' # t @ ''%'') = Inr True) \<longleftrightarrow>
      (case q_title of None \<Rightarrow> True | Some t \<Rightarrow> contains_ascii_ci t (title b))"
      using assms(2,4) nul(1)
      by (cases q_title) (auto simp: criterion_ok_def ilike_literal_iff contains_ascii_ci_def)
    have a: "(case q_author of None \<Rightarrow> True
       | Some a \<Rightarrow> a = [] \<or> ilike (author b) (CHR ''%'' # a @ ''%'') = Inr True) \<longleftrightarrow>
      (case q_author of None \<Rightarrow> True | Some a \<Rightarrow> contains_ascii_ci a (author b))"
      using assms(3,5) nul(2)
      by (cases q_author) (auto simp: criterion_ok_def ilike_literal_iff contains_ascii_ci_def)
    show "((case q_title of None \<Rightarrow> True
       | Some t \<Rightarrow> t = [] \<or> ilike (title b) (CHR ''%'' # t @ ''%'') = Inr True) \<and>
      (case q_author of None \<Rightarrow> True
       | Some a \<Rightarrow> a = [] \<or> ilike (author b) (CHR ''%'' # a @ ''%'') = Inr True) \<and>
      (case q_year of None \<Rightarrow> True | Some y \<Rightarrow> year b = Some y)) =
      criteria_match_ascii q_title q_author q_year b"
      unfolding criteria_match_ascii_def by (simp only: t a)
  qed
  then show ?thesis
    using search_books_eq_filter [OF assms(1) lt la, of db] by simp
qed

text \<open>
  C5. The claim is that \<open>search_books\<close> returns exactly the records that match every
  given criterion, title and author as parts of the field regardless of case. The
  handler puts the criterion between two \<^verbatim>\<open>%\<close> and passes it to \<^verbatim>\<open>ilike\<close>
  as it is, so a \<^verbatim>\<open>_\<close> or \<^verbatim>\<open>%\<close> inside the criterion is a wildcard: the search
  for the title \<^verbatim>\<open>_\<close> returns a book titled Dune, and the search for the author
  \<^verbatim>\<open>100%\<close> returns a book whose author is Agent 1007, though neither field contains
  the criterion. (For criteria without these two characters, and within what \<^verbatim>\<open>LIKE\<close>
  takes whole, the result over records without NUL is exactly the records that match when
  only the case of A to Z is ignored: \<open>search_books_literal_criteria\<close>.)
\<close>

theorem search_books_wildcard_criterion:
  "search_books (Some ''_'') None None
     [\<lparr>title = ''Dune'', author = ''Herbert'', year = Some 1965, book_id = 1\<rparr>] =
     Inr [\<lparr>title = ''Dune'', author = ''Herbert'', year = Some 1965, book_id = 1\<rparr>] \<and>
   \<not> criteria_match (Some ''_'') None None
     \<lparr>title = ''Dune'', author = ''Herbert'', year = Some 1965, book_id = 1\<rparr> \<and>
   search_books None (Some ''100%'') None
     [\<lparr>title = ''Dune'', author = ''Herbert'', year = Some 1965, book_id = 1\<rparr>,
      \<lparr>title = ''Emma'', author = ''Agent 1007'', year = None, book_id = 2\<rparr>] =
     Inr [\<lparr>title = ''Emma'', author = ''Agent 1007'', year = None, book_id = 2\<rparr>] \<and>
   \<not> criteria_match None (Some ''100%'') None
     \<lparr>title = ''Emma'', author = ''Agent 1007'', year = None, book_id = 2\<rparr>"
  by (simp add: search_books_def ilike_def sqlite_like_def utf8_length_def c_string_def
      criteria_match_def contains_ci_def casefold_def lower_def sublist_Cons_right)




subsection \<open>Identifiers\<close>

text \<open>
  C7, as stated: each successful create returns an id unique among all previously created
  records. This fails when the record with the largest id has been deleted: the table is
  declared without \<^verbatim>\<open>AUTOINCREMENT\<close>, so the next create is given that id again.
\<close>

theorem create_book_id_reused:
  "fst (create_book \<lparr>title = ''Emma'', author = ''Austen'', year = None\<rparr> []) =
     Inr \<lparr>title = ''Emma'', author = ''Austen'', year = None, book_id = 1\<rparr> \<and>
   fst (delete_book 1
     (snd (create_book \<lparr>title = ''Emma'', author = ''Austen'', year = None\<rparr> []))) = Inr () \<and>
   fst (create_book \<lparr>title = ''Dune'', author = ''Herbert'', year = None\<rparr>
     (run [Create \<lparr>title = ''Emma'', author = ''Austen'', year = None\<rparr>, Delete 1] [])) =
     Inr \<lparr>title = ''Dune'', author = ''Herbert'', year = None, book_id = 1\<rparr>"
  by (simp add: create_book_def delete_book_def query_first_def BookCreate_valid_def
      next_rowid_def Let_def)

text \<open>
  C7, amended: in every table reachable from the empty one by create, update and delete
  requests, the ids of the rows are pairwise distinct; each successful create appends a
  row whose id no row of the table has at that moment (the id of a deleted record may be
  assigned again), and leaves the other rows as they were; a failed create leaves the
  table as it was; an update never changes the column of ids; a delete removes the rows
  with the given id and leaves all others as they were.
\<close>

theorem ids_distinct_and_stable:
  "distinct (map book_id (run rs [])) \<and>
   (BookCreate_valid book \<longrightarrow>
      (\<exists>db_book. create_book book (run rs []) = (Inr db_book, run rs [] @ [db_book]) \<and>
         book_id db_book \<notin> book_id ` set (run rs []))) \<and>
   (\<not> BookCreate_valid book \<longrightarrow> snd (create_book book (run rs [])) = run rs []) \<and>
   map book_id (snd (update_book i book (run rs []))) = map book_id (run rs []) \<and>
   snd (delete_book i (run rs [])) = filter (\<lambda>b. book_id b \<noteq> i) (run rs [])"
proof -
  have "BookCreate_valid book \<longrightarrow>
      (\<exists>db_book. create_book book (run rs []) = (Inr db_book, run rs [] @ [db_book]) \<and>
         book_id db_book \<notin> book_id ` set (run rs []))"
    using next_rowid_fresh [of "run rs []"] by (simp add: create_book_valid)
  moreover have "\<not> BookCreate_valid book \<longrightarrow> snd (create_book book (run rs [])) = run rs []"
    by (simp add: create_book_def)
  ultimately show ?thesis
    by (simp add: distinct_ids_run snd_update_book_ids snd_delete_book)
qed

theorem ids_distinct_and_stable_witness:
  "distinct (map book_id (run [Create \<lparr>title = ''Emma'', author = ''Austen'', year = None\<rparr>,
       Create \<lparr>title = ''Dune'', author = ''Herbert'', year = None\<rparr>, Delete 1,
       Create \<lparr>title = ''Ulysses'', author = ''Joyce'', year = Some 1922\<rparr>] [])) \<and>
   BookCreate_valid \<lparr>title = ''Walden'', author = ''Thoreau'', year = Some 1854\<rparr> \<and>
   (\<exists>db_book. create_book \<lparr>title = ''Walden'', author = ''Thoreau'', year = Some 1854\<rparr>
       (run [Create \<lparr>title = ''Emma'', author = ''Austen'', year = None\<rparr>,
         Create \<lparr>title = ''Dune'', author = ''Herbert'', year = None\<rparr>, Delete 1,
         Create \<lparr>title = ''Ulysses'', author = ''Joyce'', year = Some 1922\<rparr>] []) =
       (Inr db_book,
        run [Create \<lparr>title = ''Emma'', author = ''Austen'', year = None\<rparr>,
         Create \<lparr>title = ''Dune'', author = ''Herbert'', year = None\<rparr>, Delete 1,
         Create \<lparr>title = ''Ulysses'', author = ''Joyce'', year = Some 1922\<rparr>] [] @ [db_book]) \<and>
       book_id db_book = 4)"
proof -
  have v: "BookCreate_valid \<lparr>title = ''Walden'', author = ''Thoreau'', year = Some 1854\<rparr>"
    by (simp add: BookCreate_valid_def)
  have r: "run [Create \<lparr>title = ''Emma'', author = ''Austen'', year = None\<rparr>,
       Create \<lparr>title = ''Dune'', author = ''Herbert'', year = None\<rparr>, Delete 1,
       Create \<lparr>title = ''Ulysses'', author = ''Joyce'', year = Some 1922\<rparr>] [] =
     [\<lparr>title = ''Dune'', author = ''Herbert'', year = None, book_id = 2\<rparr>,
      \<lparr>title = ''Ulysses'', author = ''Joyce'', year = Some 1922, book_id = 3\<rparr>]"
    by (simp add: create_book_def delete_book_def query_first_def BookCreate_valid_def
      next_rowid_def Let_def)
  show ?thesis
    using v ids_distinct_and_stable
      [of "[Create \<lparr>title = ''Emma'', author = ''Austen'', year = None\<rparr>,
         Create \<lparr>title = ''Dune'', author = ''Herbert'', year = None\<rparr>, Delete 1,
         Create \<lparr>title = ''Ulysses'', author = ''Joyce'', year = Some 1922\<rparr>]"
        "\<lparr>title = ''Walden'', author = ''Thoreau'', year = Some 1854\<rparr>" 0]
    unfolding r by (auto simp: create_book_valid next_rowid_def)
qed

subsection \<open>The life stage\<close>

text \<open>
  C9. For every age \<open>\<ge> 0\<close> the life-stage function returns exactly one stage:
  \<open>Child\<close> for 0 to 12, \<open>Teenager\<close> for 13 to 19 and \<open>Adult\<close> from 20 on;
  for every negative age it returns no stage (\<open>None\<close>).
\<close>

theorem generate_profile_stages:
  "(0 \<le> age \<and> age \<le> 12 \<longrightarrow> generate_profile age = Some ''Child'') \<and>
   (13 \<le> age \<and> age \<le> 19 \<longrightarrow> generate_profile age = Some ''Teenager'') \<and>
   (20 \<le> age \<longrightarrow> generate_profile age = Some ''Adult'') \<and>
   (age < 0 \<longrightarrow> generate_profile age = None) \<and>
   (0 \<le> age \<longrightarrow> generate_profile age \<in> {Some ''Child'', Some ''Teenager'', Some ''Adult''}) \<and>
   (generate_profile age = None \<longleftrightarrow> age < 0)"
  by (simp add: generate_profile_def)

theorem generate_profile_stages_witness:
  "generate_profile 12 = Some ''Child'' \<and> generate_profile 13 = Some ''Teenager'' \<and>
   generate_profile 19 = Some ''Teenager'' \<and> generate_profile 20 = Some ''Adult'' \<and>
   generate_profile (- 1) = None \<and> generate_profile 0 = Some ''Child''"
  using generate_profile_stages [of 12] generate_profile_stages [of 13]
    generate_profile_stages [of 19] generate_profile_stages [of 20]
    generate_profile_stages [of "- 1"] generate_profile_stages [of 0]
  by simp

subsection \<open>The grade tracker\<close>

text \<open>
  Choice 2 changes grades only, and choice 1 adds a name only when no student has it.
\<close>

lemma add_grades_names: "map name (fst (add_grades float nm students inp)) = map name students"
  by (induction students) (auto split: prod.splits)

lemma main_loop_names_distinct:
  "distinct (map name students) \<Longrightarrow> distinct (map name (main_loop float students inp))"
proof (induction float students inp rule: main_loop.induct)
  case (1 float students)
  then show ?case by simp
next
  case (2 float students choice inp)
  have new: "distinct (map name (students @ [\<lparr>name = l, grades = []\<rparr>]))"
    if "\<not> list_ex (\<lambda>s. name s = l) students" for l
    using that "2.prems" by (auto simp: list_ex_iff)
  have upd: "distinct (map name (fst (add_grades float l students inp')))" for l inp'
    using "2.prems" by (simp add: add_grades_names)
  from "2.IH" "2.prems" new upd show ?case
    by (subst main_loop.simps(2)) (auto simp del: main_loop.simps split: list.splits)
qed

text \<open>
  C10. The grade tracker keeps the names of its students pairwise distinct. The program
  stops where its input ends, so the lists it can ever hold are the results of
  \<open>main_loop\<close> from the empty list over all inputs: in each of them no two entries share
  a name. Adding a student whose name is already in the list is rejected: the list is
  what it was, at the end of the input and for whatever the program reads next.
\<close>

theorem student_names_distinct:
  "distinct (map name (main_loop float [] inp)) \<and>
   (list_ex (\<lambda>s. name s = new_name) students \<longrightarrow>
      main_loop float students [''1'', new_name] = students \<and>
      main_loop float students (''1'' # new_name # inp) = main_loop float students inp)"
proof -
  have "distinct (map name (main_loop float [] inp))"
    by (rule main_loop_names_distinct) simp
  then show ?thesis
    by simp
qed

theorem student_names_distinct_witness:
  "map name (main_loop (\<lambda>l. if l = ''90'' then Some 90 else None) []
     [''1'', ''Ann'', ''1'', ''Bob'', ''2'', ''Ann'', ''90'', ''abc'', ''Done'',
      ''1'', ''Ann'', ''3'']) = [''Ann'', ''Bob''] \<and>
   distinct (map name (main_loop (\<lambda>l. if l = ''90'' then Some 90 else None) []
     [''1'', ''Ann'', ''1'', ''Bob'', ''2'', ''Ann'', ''90'', ''abc'', ''Done'',
      ''1'', ''Ann'', ''3''])) \<and>
   list_ex (\<lambda>s. name s = ''Ann'') [\<lparr>name = ''Ann'', grades = [90]\<rparr>] \<and>
   main_loop (\<lambda>l. if l = ''90'' then Some 90 else None) [\<lparr>name = ''Ann'', grades = [90]\<rparr>]
     [''1'', ''Ann''] = [\<lparr>name = ''Ann'', grades = [90]\<rparr>]"
proof -
  let ?f = "\<lambda>l. if l = ''90'' then Some (90::real) else None"
  let ?inp = "[''1'', ''Ann'', ''1'', ''Bob'', ''2'', ''Ann'', ''90'', ''abc'', ''Done'',
      ''1'', ''Ann'', ''3'']"
  have ex: "list_ex (\<lambda>s. name s = ''Ann'') [\<lparr>name = ''Ann'', grades = [90]\<rparr>]"
    by simp
  have run: "main_loop ?f [] ?inp =
      [\<lparr>name = ''Ann'', grades = [90]\<rparr>, \<lparr>name = ''Bob'', grades = []\<rparr>]"
    by (simp add: lower_def)
  from student_names_distinct [of ?f ?inp "''Ann''" "[\<lparr>name = ''Ann'', grades = [90]\<rparr>]"] ex
  have "distinct (map name (main_loop ?f [] ?inp))"
    and "main_loop ?f [\<lparr>name = ''Ann'', grades = [90]\<rparr>] [''1'', ''Ann''] =
      [\<lparr>name = ''Ann'', grades = [90]\<rparr>]"
    by blast+
  with ex run show ?thesis
    by simp
qed

end
